theory Spec2Isabelle
  imports Main "HOL-Library.Option_ord"
begin

section \<open>The Readwise sync scheduler of \<^verbatim>\<open>src/widgets/index.tsx\<close>\<close>

text \<open>
  The plugin's \<^verbatim>\<open>onActivate\<close> declares one variable \<^verbatim>\<open>timeout\<close>, the closure
  \<^verbatim>\<open>syncHighlights\<close> (one sync cycle), two commands that call the closure, and a
  startup policy. The host (settings store, synced storage, toasts, timers), the export
  API and the importer are collaborators: what they answer during one cycle is a value of
  the record \<open>host\<close>, and every call made to them is appended to a trace, in order.

  A cycle is modelled as one atomic step: the interleaving of two cycles at their
  \<^verbatim>\<open>await\<close> points is not represented. The awaited calls (settings, storage, export,
  import) may reject; \<^verbatim>\<open>console.log\<close>, \<^verbatim>\<open>toast\<close>, \<^verbatim>\<open>clearTimeout\<close> and
  \<^verbatim>\<open>setTimeout\<close> are taken to return normally. The registration calls at the top of
  \<^verbatim>\<open>onActivate\<close> (one setting, two powerups, two commands) touch neither the cursor nor
  the timers and are left out.
\<close>

subsection \<open>JavaScript values\<close>

text \<open>An exception: the \<^verbatim>\<open>TypeError\<close> of a property read on \<^verbatim>\<open>undefined\<close>, or the
  rejection of an awaited collaborator call.\<close>

datatype exn = TypeError | Rejection string

text \<open>What an awaited call settles to.\<close>

datatype 'a outcome = Resolved 'a | Rejected exn

text \<open>How a function body ends: normally, or by an exception that leaves it.\<close>

datatype completion = Returned | Threw exn

text \<open>
  The string stored under \<^verbatim>\<open>storage.lastSync\<close>. \<open>ISO t\<close> is a string that \<^verbatim>\<open>Date\<close>
  parses to the instant \<open>t\<close> (milliseconds since the epoch), as
  \<^verbatim>\<open>new Date().toISOString()\<close> produces; \<open>Unparsed s\<close> is a string \<open>s\<close> that
  \<^verbatim>\<open>Date\<close> cannot parse.
\<close>

datatype stamp = ISO int | Unparsed string

text \<open>\<^verbatim>\<open>new Date(v).getTime()\<close>; \<open>None\<close> is \<^verbatim>\<open>NaN\<close> (also for \<^verbatim>\<open>undefined\<close>).\<close>

fun getTime :: "stamp option \<Rightarrow> int option" where
  "getTime (Some (ISO t)) = Some t"
| "getTime (Some (Unparsed s)) = None"
| "getTime None = None"

definition toISOString :: "int \<Rightarrow> stamp" where
  "toISOString t = ISO t"

text \<open>Numbers that may be \<^verbatim>\<open>NaN\<close>: a comparison with \<^verbatim>\<open>NaN\<close> is false, a
  difference with \<^verbatim>\<open>NaN\<close> is \<^verbatim>\<open>NaN\<close>.\<close>

fun jsLess :: "int option \<Rightarrow> int option \<Rightarrow> bool" where
  "jsLess (Some a) (Some b) = (a < b)"
| "jsLess a b = False"

fun jsMinus :: "int option \<Rightarrow> int option \<Rightarrow> int option" where
  "jsMinus (Some a) (Some b) = Some (a - b)"
| "jsMinus a b = None"

text \<open>\<^verbatim>\<open>!v\<close> for a value that is a string or \<^verbatim>\<open>undefined\<close>.\<close>

fun falsyString :: "string option \<Rightarrow> bool" where
  "falsyString None = True"
| "falsyString (Some []) = True"
| "falsyString (Some (c # cs)) = False"

fun falsyStamp :: "stamp option \<Rightarrow> bool" where
  "falsyStamp None = True"
| "falsyStamp (Some (Unparsed [])) = True"
| "falsyStamp (Some v) = False"

text \<open>The truth value of an optional boolean flag.\<close>

fun truthy :: "bool option \<Rightarrow> bool" where
  "truthy (Some b) = b"
| "truthy None = False"

subsection \<open>Options, results, events, timers\<close>

text \<open>\<^verbatim>\<open>opts: { ignoreLastSync?: boolean; notify?: boolean }\<close>\<close>

record opts =
  ignoreLastSync :: "bool option"
  notify :: "bool option"

text \<open>
  The result of the export API: \<^verbatim>\<open>{success: true, data}\<close> (the cycle tolerates a
  missing \<^verbatim>\<open>data\<close>) or \<^verbatim>\<open>{success: false, error}\<close>.
\<close>

datatype 'b fetch_result = Success "'b list option" | Failure string

datatype 'b event =
    GetSetting
  | GetSynced
  | SetSynced stamp
  | is_Fetch: Fetch string "stamp option"
  | is_Import: Import "'b list"
  | ConsoleLog string
  | ConsoleLogExn exn
  | is_Toast: Toast string
  | ClearTimeout "nat option"
  | SetTimeout "opts list" "int option"

text \<open>
  A pending timer of the host: its handle, its delay in milliseconds (\<open>None\<close> is
  \<^verbatim>\<open>NaN\<close>) and the extra arguments of \<^verbatim>\<open>setTimeout\<close>, which the host passes to the
  callback. The callback is always \<^verbatim>\<open>syncHighlights\<close>.
\<close>

record timer =
  handle :: nat
  delay :: "int option"
  cbArgs :: "opts list"

text \<open>
  The state: the stored cursor, the variable \<^verbatim>\<open>timeout\<close> of line 67, the host's
  pending timers with the next fresh handle, and the trace of calls made so far.
\<close>

record 'b world =
  lastSync :: "stamp option"
  timeout :: "nat option"
  pending :: "timer list"
  nextHandle :: nat
  trace :: "'b event list"

text \<open>What the collaborators answer during one cycle.\<close>

record 'b host =
  getSetting :: "string option outcome"
  getSyncedFault :: "exn option"
  fetchResult :: "'b fetch_result outcome"
  importResult :: "unit outcome"
  setSyncedFault :: "exn option"
  now :: int

subsection \<open>Collaborator calls\<close>

definition emit :: "'b event \<Rightarrow> 'b world \<Rightarrow> 'b world" where
  "emit e s = s\<lparr>trace := trace s @ [e]\<rparr>"

definition console_log :: "string \<Rightarrow> 'b world \<Rightarrow> 'b world" where
  "console_log msg s = emit (ConsoleLog msg) s"

definition toast :: "string \<Rightarrow> 'b world \<Rightarrow> 'b world" where
  "toast msg s = emit (Toast msg) s"

definition getSynced :: "'b host \<Rightarrow> 'b world \<Rightarrow> stamp option outcome \<times> 'b world" where
  "getSynced h s =
     (case getSyncedFault h of
        Some e \<Rightarrow> (Rejected e, emit GetSynced s)
      | None \<Rightarrow> (Resolved (lastSync s), emit GetSynced s))"

definition setSynced :: "'b host \<Rightarrow> stamp \<Rightarrow> 'b world \<Rightarrow> unit outcome \<times> 'b world" where
  "setSynced h v s =
     (case setSyncedFault h of
        Some e \<Rightarrow> (Rejected e, emit (SetSynced v) s)
      | None \<Rightarrow> (Resolved (), (emit (SetSynced v) s)\<lparr>lastSync := Some v\<rparr>))"

text \<open>\<^verbatim>\<open>clearTimeout(undefined)\<close> cancels nothing.\<close>

definition clearTimeout :: "nat option \<Rightarrow> 'b world \<Rightarrow> 'b world" where
  "clearTimeout t s =
     (case t of
        None \<Rightarrow> emit (ClearTimeout None) s
      | Some k \<Rightarrow> (emit (ClearTimeout (Some k)) s)
                    \<lparr>pending := filter (\<lambda>p. handle p \<noteq> k) (pending s)\<rparr>)"

text \<open>\<^verbatim>\<open>setTimeout(syncHighlights, d, ...args)\<close> returns the new handle.\<close>

definition setTimeout :: "opts list \<Rightarrow> int option \<Rightarrow> 'b world \<Rightarrow> nat \<times> 'b world" where
  "setTimeout args d s =
     (nextHandle s,
      (emit (SetTimeout args d) s)
        \<lparr>pending := pending s @ [\<lparr>handle = nextHandle s, delay = d, cbArgs = args\<rparr>],
         nextHandle := Suc (nextHandle s)\<rparr>)"

subsection \<open>Constants\<close>

text \<open>\<^verbatim>\<open>1000 * 60 * 30\<close>\<close>

definition interval :: int where
  "interval = 1000 * 60 * 30"

definition msgNoKey :: string where
  "msgNoKey = ''No Readwise API key set. Please follow the instructions in the plugin settings.''"

definition msgImporting :: string where
  "msgImporting = ''Importing books and highlights...''"

definition msgFinished :: string where
  "msgFinished = ''Finished importing books and highlights.''"

definition msgNothing :: string where
  "msgNothing = ''No new books or highlights to import.''"

definition msgInvalidKey :: string where
  "msgInvalidKey = ''Readwise API key is invalid. Please follow the instructions in the plugin settings.''"

definition msgFailedPrefix :: string where
  "msgFailedPrefix = ''Failed to sync Readwise highlights: ''"

definition msgFailed :: string where
  "msgFailed = ''Failed to sync Readwise highlights.''"

subsection \<open>The sync cycle\<close>

text \<open>Lines 83 to 102: the two branches of \<^verbatim>\<open>books && books.length > 0\<close>.\<close>

definition importBranch :: "'b host \<Rightarrow> opts \<Rightarrow> 'b list \<Rightarrow> 'b world \<Rightarrow> completion \<times> 'b world" where
  "importBranch h opt books s =
     (let s1 = console_log msgImporting s;
          s2 = (if truthy (notify opt) then toast msgImporting s1 else s1);
          s3 = emit (Import books) s2
      in case importResult h of
           Rejected e \<Rightarrow> (Threw e, s3)
         | Resolved u \<Rightarrow>
             (let s4 = console_log msgFinished s3
              in (Returned, if truthy (notify opt) then toast msgFinished s4 else s4)))"

definition nothingBranch :: "opts \<Rightarrow> 'b world \<Rightarrow> completion \<times> 'b world" where
  "nothingBranch opt s =
     (let s1 = console_log msgNothing s
      in (Returned, if truthy (notify opt) then toast msgNothing s1 else s1))"

fun importPhase :: "'b host \<Rightarrow> opts \<Rightarrow> 'b list option \<Rightarrow> 'b world \<Rightarrow> completion \<times> 'b world" where
  "importPhase h opt (Some (b # bs)) s = importBranch h opt (b # bs) s"
| "importPhase h opt books s = nothingBranch opt s"

text \<open>Lines 81 to 116: the body of the \<^verbatim>\<open>try\<close> block.\<close>

definition tryBlock :: "'b host \<Rightarrow> opts \<Rightarrow> string \<Rightarrow> stamp option \<Rightarrow> 'b world \<Rightarrow> completion \<times> 'b world" where
  "tryBlock h opt apiKey since s =
     (let s1 = emit (Fetch apiKey since) s
      in case fetchResult h of
           Rejected e \<Rightarrow> (Threw e, s1)
         | Resolved (Success books) \<Rightarrow>
             (case importPhase h opt books s1 of
                (Threw e, s2) \<Rightarrow> (Threw e, s2)
              | (Returned, s2) \<Rightarrow>
                  (case setSynced h (toISOString (now h)) s2 of
                     (Rejected e, s3) \<Rightarrow> (Threw e, s3)
                   | (Resolved u, s3) \<Rightarrow> (Returned, s3)))
         | Resolved (Failure err) \<Rightarrow>
             (if err = ''auth''
              then (Returned, toast msgInvalidKey (console_log msgInvalidKey s1))
              else (Returned, toast (msgFailedPrefix @ err) (console_log err s1))))"

text \<open>Lines 117 to 119: the \<^verbatim>\<open>catch\<close> block; the cycle then completes normally.\<close>

definition catchBlock :: "exn \<Rightarrow> 'b world \<Rightarrow> completion \<times> 'b world" where
  "catchBlock e s = (Returned, toast msgFailed (emit (ConsoleLogExn e) s))"

text \<open>Lines 120 to 123: the \<^verbatim>\<open>finally\<close> block. The handle that \<^verbatim>\<open>setTimeout\<close> returns
  is dropped.\<close>

definition finallyBlock :: "'b world \<Rightarrow> 'b world" where
  "finallyBlock s = snd (setTimeout [] (Some interval) (clearTimeout (timeout s) s))"

text \<open>Lines 80 to 123: \<^verbatim>\<open>try\<close>, \<^verbatim>\<open>catch\<close>, \<^verbatim>\<open>finally\<close>.\<close>

definition guarded :: "'b host \<Rightarrow> opts \<Rightarrow> string \<Rightarrow> stamp option \<Rightarrow> 'b world \<Rightarrow> completion \<times> 'b world" where
  "guarded h opt apiKey since s =
     (case (case tryBlock h opt apiKey since s of
              (Threw e, s1) \<Rightarrow> catchBlock e s1
            | (Returned, s1) \<Rightarrow> (Returned, s1)) of
        (c, s2) \<Rightarrow> (c, finallyBlock s2))"

text \<open>Lines 77 to 79: the \<^verbatim>\<open>since\<close> value. The stored cursor is read only when
  \<^verbatim>\<open>opts.ignoreLastSync\<close> is not truthy.\<close>

definition resolveSince :: "'b host \<Rightarrow> opts \<Rightarrow> 'b world \<Rightarrow> stamp option outcome \<times> 'b world" where
  "resolveSince h opt s =
     (if truthy (ignoreLastSync opt) then (Resolved None, s) else getSynced h s)"

text \<open>
  Lines 69 to 124. The argument is \<open>None\<close> when the function is called with no argument:
  \<^verbatim>\<open>opts\<close> is then \<^verbatim>\<open>undefined\<close> and \<^verbatim>\<open>opts.ignoreLastSync\<close> throws a
  \<^verbatim>\<open>TypeError\<close>. The credential gate and the \<^verbatim>\<open>since\<close> resolution stand before the
  \<^verbatim>\<open>try\<close>.
\<close>

definition syncHighlights :: "'b host \<Rightarrow> opts option \<Rightarrow> 'b world \<Rightarrow> completion \<times> 'b world" where
  "syncHighlights h optArg s =
     (let s1 = emit GetSetting s
      in case getSetting h of
           Rejected e \<Rightarrow> (Threw e, s1)
         | Resolved apiKey \<Rightarrow>
             (if falsyString apiKey
              then (Returned, toast msgNoKey (console_log msgNoKey s1))
              else case optArg of
                     None \<Rightarrow> (Threw TypeError, s1)
                   | Some opt \<Rightarrow>
                       (case resolveSince h opt s1 of
                          (Rejected e, s2) \<Rightarrow> (Threw e, s2)
                        | (Resolved since, s2) \<Rightarrow>
                            guarded h opt (case apiKey of Some k \<Rightarrow> k | None \<Rightarrow> []) since s2)))"

subsection \<open>Commands, timers, startup\<close>

text \<open>Lines 131 to 133 and 141 to 143: the option objects of the two commands; line 148:
  the option object of the startup cycle.\<close>

definition optsLatest :: opts where
  "optsLatest = \<lparr>ignoreLastSync = None, notify = Some True\<rparr>"

definition optsAll :: opts where
  "optsAll = \<lparr>ignoreLastSync = Some True, notify = Some True\<rparr>"

definition optsStartup :: opts where
  "optsStartup = \<lparr>ignoreLastSync = None, notify = None\<rparr>"

text \<open>The host fires the pending timer with handle \<open>k\<close>: the timer leaves the pending list
  and the callback runs with the timer's extra arguments.\<close>

definition fireTimer :: "'b host \<Rightarrow> nat \<Rightarrow> 'b world \<Rightarrow> completion \<times> 'b world" where
  "fireTimer h k s =
     (case find (\<lambda>p. handle p = k) (pending s) of
        None \<Rightarrow> (Returned, s)
      | Some p \<Rightarrow>
          syncHighlights h (case cbArgs p of [] \<Rightarrow> None | a # as \<Rightarrow> Some a)
            (s\<lparr>pending := filter (\<lambda>q. handle q \<noteq> k) (pending s)\<rparr>))"

datatype invocation = SyncLatest | SyncAll | TimerFires nat

fun invoke :: "'b host \<Rightarrow> invocation \<Rightarrow> 'b world \<Rightarrow> completion \<times> 'b world" where
  "invoke h SyncLatest s = syncHighlights h (Some optsLatest) s"
| "invoke h SyncAll s = syncHighlights h (Some optsAll) s"
| "invoke h (TimerFires k) s = fireTimer h k s"

text \<open>A sequence of invocations, each with the answers of the collaborators during it.\<close>

fun run :: "('b host \<times> invocation) list \<Rightarrow> 'b world \<Rightarrow> 'b world" where
  "run [] s = s"
| "run ((h, i) # rest) s = run rest (snd (invoke h i s))"

text \<open>The state when \<^verbatim>\<open>onActivate\<close> starts: \<^verbatim>\<open>timeout\<close> is declared without a value.\<close>

definition activation :: "stamp option \<Rightarrow> 'b world" where
  "activation cursor =
     \<lparr>lastSync = cursor, timeout = None, pending = [], nextHandle = 0, trace = []\<rparr>"

text \<open>
  Lines 146 to 152. \<open>nowTest\<close> is the clock read by \<^verbatim>\<open>new Date().getTime()\<close> in the
  test, \<open>nowDelay\<close> the one read by \<^verbatim>\<open>Date.now()\<close> in the delay. The immediate cycle is
  not awaited: its exception, if any, does not leave \<^verbatim>\<open>onActivate\<close>.
\<close>

definition onActivate :: "'b host \<Rightarrow> int \<Rightarrow> int \<Rightarrow> 'b world \<Rightarrow> completion \<times> 'b world" where
  "onActivate h nowTest nowDelay s =
     (case getSynced h s of
        (Rejected e, s1) \<Rightarrow> (Threw e, s1)
      | (Resolved cursor, s1) \<Rightarrow>
          (if falsyStamp cursor \<or> jsLess (getTime cursor) (Some (nowTest - interval))
           then (Returned, snd (syncHighlights h (Some optsStartup) s1))
           else (Returned,
                 snd (setTimeout []
                        (jsMinus (Some interval) (jsMinus (Some nowDelay) (getTime cursor)))
                        (clearTimeout (timeout s1) s1)))))"

subsection \<open>Concrete collaborators\<close>

text \<open>
  Answers used to evaluate the cycle on concrete inputs; a book is stood for by a number.
  \<open>hostOk\<close>: a key is stored and the export returns one book at clock reading 600000
  (ten minutes after the epoch). The others differ from it in one answer.
\<close>

definition hostOk :: "nat host" where
  "hostOk = \<lparr>getSetting = Resolved (Some ''token''), getSyncedFault = None,
             fetchResult = Resolved (Success (Some [1])), importResult = Resolved (),
             setSyncedFault = None, now = 600000\<rparr>"

definition hostNoKey :: "nat host" where
  "hostNoKey = hostOk\<lparr>getSetting := Resolved (Some [])\<rparr>"

definition hostAuth :: "nat host" where
  "hostAuth = hostOk\<lparr>fetchResult := Resolved (Failure ''auth'')\<rparr>"

definition hostEmpty :: "nat host" where
  "hostEmpty = hostOk\<lparr>fetchResult := Resolved (Success (Some []))\<rparr>"

definition hostLater :: "nat host" where
  "hostLater = hostOk\<lparr>now := 2400000\<rparr>"

section \<open>Properties\<close>

lemmas cycle_defs = syncHighlights_def resolveSince_def guarded_def tryBlock_def catchBlock_def
  finallyBlock_def importBranch_def nothingBranch_def setSynced_def getSynced_def
  setTimeout_def clearTimeout_def toast_def console_log_def emit_def toISOString_def Let_def

lemmas host_defs = hostOk_def hostNoKey_def hostAuth_def hostEmpty_def hostLater_def
  optsLatest_def optsAll_def optsStartup_def activation_def fireTimer_def

subsection \<open>What a cycle leaves unchanged\<close>

lemma importPhase_frame:
  "importPhase h opt books s = (c, s') \<Longrightarrow>
   lastSync s' = lastSync s \<and> timeout s' = timeout s \<and> pending s' = pending s \<and>
   nextHandle s' = nextHandle s"
  by (cases "(h, opt, books, s)" rule: importPhase.cases)
     (auto simp: importBranch_def nothingBranch_def toast_def console_log_def emit_def Let_def
           split: outcome.splits if_splits)

lemma tryBlock_frame:
  "tryBlock h opt k since s = (c, s') \<Longrightarrow>
   timeout s' = timeout s \<and> pending s' = pending s \<and> nextHandle s' = nextHandle s"
  by (auto simp: tryBlock_def setSynced_def toast_def console_log_def emit_def Let_def
           split: outcome.splits fetch_result.splits if_splits prod.splits completion.splits
                  option.splits
           dest!: importPhase_frame)

text \<open>The only write of the cursor is the one after a successful fetch, and it stores the
  clock reading.\<close>

lemma tryBlock_cursor:
  "tryBlock h opt k since s = (c, s') \<Longrightarrow>
   lastSync s' = lastSync s \<or>
   (\<exists>books. fetchResult h = Resolved (Success books) \<and> lastSync s' = Some (ISO (now h)))"
  by (auto simp: tryBlock_def setSynced_def toast_def console_log_def emit_def Let_def
                 toISOString_def
           split: outcome.splits fetch_result.splits if_splits prod.splits completion.splits
                  option.splits
           dest!: importPhase_frame)

lemma guarded_cursor:
  "lastSync (snd (guarded h opt k since s)) = lastSync s \<or>
   (\<exists>books. fetchResult h = Resolved (Success books) \<and>
      lastSync (snd (guarded h opt k since s)) = Some (ISO (now h)))"
proof (cases "tryBlock h opt k since s")
  case (Pair c1 s1)
  with tryBlock_cursor[of h opt k since s c1 s1] show ?thesis
    by (auto simp: guarded_def catchBlock_def finallyBlock_def setTimeout_def clearTimeout_def
          toast_def emit_def split: completion.splits option.splits)
qed

text \<open>The \<^verbatim>\<open>finally\<close> block always adds one timer, with the fixed interval and no
  callback argument; it cancels through the variable \<^verbatim>\<open>timeout\<close>.\<close>

lemma guarded_pending:
  "pending (snd (guarded h opt k since s)) =
     pending (clearTimeout (timeout s) s) @
       [\<lparr>handle = nextHandle s, delay = Some interval, cbArgs = []\<rparr>]"
proof (cases "tryBlock h opt k since s")
  case (Pair c1 s1)
  with tryBlock_frame[of h opt k since s c1 s1] show ?thesis
    by (auto simp: guarded_def catchBlock_def finallyBlock_def setTimeout_def clearTimeout_def
          toast_def emit_def split: completion.splits option.splits)
qed

lemma guarded_timeout:
  "timeout (snd (guarded h opt k since s)) = timeout s"
proof (cases "tryBlock h opt k since s")
  case (Pair c1 s1)
  with tryBlock_frame[of h opt k since s c1 s1] show ?thesis
    by (auto simp: guarded_def catchBlock_def finallyBlock_def setTimeout_def clearTimeout_def
          toast_def emit_def split: completion.splits option.splits)
qed

text \<open>A cycle either ends before the \<^verbatim>\<open>try\<close>, leaving cursor, timers and
  \<^verbatim>\<open>timeout\<close> as they were, or it is the guarded block run from a state with the same
  cursor, timers and \<^verbatim>\<open>timeout\<close>.\<close>

lemma syncHighlights_cases:
  obtains (early) "lastSync (snd (syncHighlights h a s)) = lastSync s"
      and "pending (snd (syncHighlights h a s)) = pending s"
      and "timeout (snd (syncHighlights h a s)) = timeout s"
    | (tried) opt k since s2 where "syncHighlights h a s = guarded h opt k since s2"
      and "lastSync s2 = lastSync s" and "pending s2 = pending s"
      and "timeout s2 = timeout s" and "nextHandle s2 = nextHandle s"
proof (cases "getSetting h")
  case (Rejected e)
  then show ?thesis
    by (intro early) (simp_all add: syncHighlights_def emit_def)
next
  case (Resolved apiKey)
  show ?thesis
  proof (cases "falsyString apiKey")
    case True
    with Resolved show ?thesis
      by (intro early) (simp_all add: syncHighlights_def toast_def console_log_def emit_def)
  next
    case False
    show ?thesis
    proof (cases a)
      case None
      with Resolved False show ?thesis
        by (intro early) (simp_all add: syncHighlights_def emit_def)
    next
      case (Some opt)
      obtain r s2 where rs: "resolveSince h opt (emit GetSetting s) = (r, s2)"
        by fastforce
      then have same: "lastSync s2 = lastSync s" "pending s2 = pending s"
        "timeout s2 = timeout s" "nextHandle s2 = nextHandle s"
        by (auto simp: resolveSince_def getSynced_def emit_def split: if_splits option.splits)
      show ?thesis
      proof (cases r)
        case (Rejected e)
        with Resolved False Some rs same show ?thesis
          by (intro early) (simp_all add: syncHighlights_def)
      next
        case since: (Resolved since)
        with Resolved False Some rs have
          "syncHighlights h a s =
             guarded h opt (case apiKey of Some k \<Rightarrow> k | None \<Rightarrow> []) since s2"
          by (simp add: syncHighlights_def)
        then show ?thesis using same by (rule tried)
      qed
    qed
  qed
qed

lemma syncHighlights_cursor:
  "lastSync (snd (syncHighlights h a s)) = lastSync s \<or>
   (\<exists>books. fetchResult h = Resolved (Success books) \<and>
      lastSync (snd (syncHighlights h a s)) = Some (ISO (now h)))"
proof (cases rule: syncHighlights_cases[of h a s])
  case early
  then show ?thesis by simp
next
  case (tried opt k since s2)
  with guarded_cursor[of h opt k since s2] show ?thesis by simp
qed

lemma syncHighlights_timeout:
  "timeout (snd (syncHighlights h a s)) = timeout s"
proof (cases rule: syncHighlights_cases[of h a s])
  case early
  then show ?thesis by simp
next
  case (tried opt k since s2)
  then show ?thesis by (simp add: guarded_timeout)
qed

lemma syncHighlights_pending:
  "pending (snd (syncHighlights h a s)) = pending s \<or>
   pending (snd (syncHighlights h a s)) =
     pending (clearTimeout (timeout s) s) @
       [\<lparr>handle = nextHandle s, delay = Some interval, cbArgs = []\<rparr>]"
proof (cases rule: syncHighlights_cases[of h a s])
  case early
  then show ?thesis by simp
next
  case (tried opt k since s2)
  then show ?thesis
    by (simp add: guarded_pending clearTimeout_def emit_def split: option.splits)
qed

subsection \<open>The fetch window\<close>

lemma importPhase_trace:
  "trace (snd (importPhase h opt books s)) = trace s @
     (case books of
        Some (b # bs) \<Rightarrow>
          [ConsoleLog msgImporting] @ (if truthy (notify opt) then [Toast msgImporting] else []) @
          [Import (b # bs)] @
          (case importResult h of
             Rejected e \<Rightarrow> []
           | Resolved u \<Rightarrow> [ConsoleLog msgFinished] @
                (if truthy (notify opt) then [Toast msgFinished] else []))
      | _ \<Rightarrow> [ConsoleLog msgNothing] @ (if truthy (notify opt) then [Toast msgNothing] else []))"
  by (cases "(h, opt, books, s)" rule: importPhase.cases)
     (auto simp: importBranch_def nothingBranch_def toast_def console_log_def emit_def Let_def
           split: outcome.splits)

lemma tryBlock_calls:
  "filter is_Fetch (trace (snd (tryBlock h opt k since s))) =
     filter is_Fetch (trace s) @ [Fetch k since] \<and>
   count_list (trace (snd (tryBlock h opt k since s))) GetSynced = count_list (trace s) GetSynced"
proof (cases "fetchResult h")
  case (Rejected e)
  then show ?thesis by (simp add: tryBlock_def emit_def Let_def)
next
  case (Resolved r)
  show ?thesis
  proof (cases r)
    case (Failure err)
    with Resolved show ?thesis
      by (simp add: tryBlock_def toast_def console_log_def emit_def Let_def)
  next
    case (Success books)
    obtain c1 s1 where ph: "importPhase h opt books (emit (Fetch k since) s) = (c1, s1)"
      by fastforce
    with importPhase_trace[of h opt books "emit (Fetch k since) s"]
    have "filter is_Fetch (trace s1) = filter is_Fetch (trace s) @ [Fetch k since]"
      and "count_list (trace s1) GetSynced = count_list (trace s) GetSynced"
      by (auto simp: emit_def split: option.splits list.splits outcome.splits)
    with Resolved Success ph show ?thesis
      by (cases c1; cases "setSyncedFault h")
         (simp_all add: tryBlock_def setSynced_def emit_def Let_def)
  qed
qed

lemma guarded_calls:
  "filter is_Fetch (trace (snd (guarded h opt k since s))) =
     filter is_Fetch (trace s) @ [Fetch k since] \<and>
   count_list (trace (snd (guarded h opt k since s))) GetSynced = count_list (trace s) GetSynced"
proof (cases "tryBlock h opt k since s")
  case (Pair c1 s1)
  with tryBlock_calls[of h opt k since s] show ?thesis
    by (cases c1; cases "timeout s1")
       (simp_all add: guarded_def catchBlock_def finallyBlock_def setTimeout_def
          clearTimeout_def toast_def emit_def)
qed

text \<open>
  C5 (window correctness). In a cycle that passes the credential gate and whose cursor
  read, if any, succeeds, the export is fetched exactly once: with the stored cursor
  when \<^verbatim>\<open>ignoreLastSync\<close> is not set (so with \<^verbatim>\<open>undefined\<close> when the cursor is
  absent), and with \<^verbatim>\<open>undefined\<close> when \<^verbatim>\<open>ignoreLastSync\<close> is set. The stored cursor
  is read once in the first case and not at all in the second.
\<close>

theorem fetch_window:
  assumes "getSetting h = Resolved (Some (c # cs))"
    and "truthy (ignoreLastSync opt) \<or> getSyncedFault h = None"
  shows "filter is_Fetch (trace (snd (syncHighlights h (Some opt) s))) =
           filter is_Fetch (trace s) @
             [Fetch (c # cs) (if truthy (ignoreLastSync opt) then None else lastSync s)] \<and>
         count_list (trace (snd (syncHighlights h (Some opt) s))) GetSynced =
           count_list (trace s) GetSynced + (if truthy (ignoreLastSync opt) then 0 else 1)"
  using assms
  by (auto simp: syncHighlights_def resolveSince_def getSynced_def Let_def guarded_calls emit_def)

text \<open>The window at a stored cursor, at an absent cursor, and for "sync all".\<close>

theorem fetch_window_witness:
  "filter is_Fetch
     (trace (snd (syncHighlights hostOk (Some optsLatest) (activation (Some (ISO 5)))))) =
     [Fetch ''token'' (Some (ISO 5))] \<and>
   filter is_Fetch (trace (snd (syncHighlights hostOk (Some optsLatest) (activation None)))) =
     [Fetch ''token'' None] \<and>
   filter is_Fetch
     (trace (snd (syncHighlights hostOk (Some optsAll) (activation (Some (ISO 5)))))) =
     [Fetch ''token'' None] \<and>
   count_list (trace (snd (syncHighlights hostOk (Some optsAll) (activation (Some (ISO 5))))))
     GetSynced = 0"
  using fetch_window[of hostOk "CHR ''t''" "''oken''" optsLatest "activation (Some (ISO 5))"]
    fetch_window[of hostOk "CHR ''t''" "''oken''" optsLatest "activation None"]
    fetch_window[of hostOk "CHR ''t''" "''oken''" optsAll "activation (Some (ISO 5))"]
  by (simp add: host_defs)

subsection \<open>The success paths\<close>

text \<open>
  C6 (empty success). When the fetch succeeds with an empty or missing record list, the
  cycle makes exactly these calls: it logs "nothing to import", toasts it only when
  \<^verbatim>\<open>notify\<close> is set, never calls the importer, writes the clock reading to the cursor
  and re-arms. The cursor then holds the clock reading (the write is assumed to succeed).
\<close>

theorem empty_success_advances:
  assumes "getSetting h = Resolved (Some (c # cs))"
    and "truthy (ignoreLastSync opt) \<or> getSyncedFault h = None"
    and "fetchResult h = Resolved (Success books)"
    and "books = None \<or> books = Some []"
    and "setSyncedFault h = None"
  shows "trace (snd (syncHighlights h (Some opt) s)) =
           trace s @ [GetSetting] @ (if truthy (ignoreLastSync opt) then [] else [GetSynced]) @
             [Fetch (c # cs) (if truthy (ignoreLastSync opt) then None else lastSync s),
              ConsoleLog msgNothing] @
             (if truthy (notify opt) then [Toast msgNothing] else []) @
             [SetSynced (ISO (now h)), ClearTimeout (timeout s), SetTimeout [] (Some interval)] \<and>
         lastSync (snd (syncHighlights h (Some opt) s)) = Some (ISO (now h))"
  using assms
  by (auto simp: cycle_defs split: option.splits)

theorem empty_success_advances_witness:
  "trace (snd (syncHighlights hostEmpty (Some optsStartup) (activation (Some (ISO 5))))) =
     [GetSetting, GetSynced, Fetch ''token'' (Some (ISO 5)), ConsoleLog msgNothing,
      SetSynced (ISO 600000), ClearTimeout None, SetTimeout [] (Some interval)] \<and>
   lastSync (snd (syncHighlights hostEmpty (Some optsStartup) (activation (Some (ISO 5))))) =
     Some (ISO 600000)"
  using empty_success_advances[of hostEmpty "CHR ''t''" "''oken''" optsStartup "Some []"
     "activation (Some (ISO 5))"]
  by (simp add: host_defs)

text \<open>
  C7 (non-empty success). With \<^verbatim>\<open>notify\<close> set, a fetch that succeeds with at least one
  record and an import that completes, the cycle makes exactly these calls, in this order:
  the "importing" toast, the import of the fetched records, the "finished" toast, the
  write of the cursor; then it re-arms.
\<close>

theorem nonempty_success_order:
  assumes "getSetting h = Resolved (Some (c # cs))"
    and "truthy (ignoreLastSync opt) \<or> getSyncedFault h = None"
    and "fetchResult h = Resolved (Success (Some (b # bs)))"
    and "truthy (notify opt)"
    and "importResult h = Resolved ()"
    and "setSyncedFault h = None"
  shows "trace (snd (syncHighlights h (Some opt) s)) =
           trace s @ [GetSetting] @ (if truthy (ignoreLastSync opt) then [] else [GetSynced]) @
             [Fetch (c # cs) (if truthy (ignoreLastSync opt) then None else lastSync s),
              ConsoleLog msgImporting, Toast msgImporting, Import (b # bs),
              ConsoleLog msgFinished, Toast msgFinished,
              SetSynced (ISO (now h)), ClearTimeout (timeout s), SetTimeout [] (Some interval)] \<and>
         lastSync (snd (syncHighlights h (Some opt) s)) = Some (ISO (now h))"
  using assms
  by (auto simp: cycle_defs split: option.splits)

theorem nonempty_success_order_witness:
  "trace (snd (syncHighlights hostOk (Some optsLatest) (activation (Some (ISO 5))))) =
     [GetSetting, GetSynced, Fetch ''token'' (Some (ISO 5)),
      ConsoleLog msgImporting, Toast msgImporting, Import [1],
      ConsoleLog msgFinished, Toast msgFinished,
      SetSynced (ISO 600000), ClearTimeout None, SetTimeout [] (Some interval)] \<and>
   lastSync (snd (syncHighlights hostOk (Some optsLatest) (activation (Some (ISO 5))))) =
     Some (ISO 600000)"
  using nonempty_success_order[of hostOk "CHR ''t''" "''oken''" optsLatest 1 "[]"
     "activation (Some (ISO 5))"]
  by (simp add: host_defs)

subsection \<open>Startup\<close>

text \<open>
  C8 (startup policy). When the cursor read succeeds at activation: if the cursor is absent,
  or is a timestamp more than 30 minutes before the clock, the cycle runs at once with an
  option object that sets neither flag; if it is a timestamp at most 30 minutes before the
  clock, no cycle runs and exactly one timer is scheduled, with delay
  interval - (now - cursor time), \<open>now\<close> being the clock read for the delay.
\<close>

theorem startup_policy:
  assumes "getSyncedFault h = None"
  shows "(lastSync s = None \<or> (lastSync s = Some (ISO t) \<and> interval < nowTest - t) \<longrightarrow>
            onActivate h nowTest nowDelay s =
              (Returned, snd (syncHighlights h (Some optsStartup) (emit GetSynced s)))) \<and>
         (lastSync s = Some (ISO t) \<and> nowTest - t \<le> interval \<longrightarrow>
            trace (snd (onActivate h nowTest nowDelay s)) =
              trace s @ [GetSynced, ClearTimeout (timeout s),
                         SetTimeout [] (Some (interval - (nowDelay - t)))] \<and>
            pending (snd (onActivate h nowTest nowDelay s)) =
              pending (clearTimeout (timeout s) s) @
                [\<lparr>handle = nextHandle s, delay = Some (interval - (nowDelay - t)),
                  cbArgs = []\<rparr>]) \<and>
         ignoreLastSync optsStartup = None \<and> notify optsStartup = None"
  using assms
  by (auto simp: onActivate_def getSynced_def setTimeout_def clearTimeout_def emit_def
        optsStartup_def split: option.splits)

text \<open>A restart 10 minutes after the cursor schedules the cycle after 20 minutes; a restart
  with no cursor runs the cycle at once.\<close>

theorem startup_policy_witness:
  "pending (snd (onActivate hostOk 600000 600000 (activation (Some (ISO 0))))) =
     [\<lparr>handle = 0, delay = Some 1200000, cbArgs = []\<rparr>] \<and>
   trace (snd (onActivate hostOk 600000 600000 (activation (Some (ISO 0))))) =
     [GetSynced, ClearTimeout None, SetTimeout [] (Some 1200000)] \<and>
   onActivate hostOk 600000 600000 (activation None) =
     (Returned, snd (syncHighlights hostOk (Some optsStartup) (emit GetSynced (activation None))))"
  using startup_policy[of hostOk "activation (Some (ISO 0))" 0 600000 600000]
    startup_policy[of hostOk "activation None" 0 600000 600000]
  by (simp add: host_defs interval_def clearTimeout_def emit_def)

subsection \<open>The cursor\<close>

lemma invoke_cursor:
  "lastSync (snd (invoke h i s)) = lastSync s \<or>
   (\<exists>books. fetchResult h = Resolved (Success books) \<and>
      lastSync (snd (invoke h i s)) = Some (ISO (now h)))"
proof (cases i)
  case SyncLatest
  then show ?thesis using syncHighlights_cursor[of h "Some optsLatest" s] by simp
next
  case SyncAll
  then show ?thesis using syncHighlights_cursor[of h "Some optsAll" s] by simp
next
  case (TimerFires k)
  show ?thesis
  proof (cases "find (\<lambda>p. handle p = k) (pending s)")
    case None
    with TimerFires show ?thesis by (simp add: fireTimer_def)
  next
    case (Some p)
    with TimerFires show ?thesis
      using syncHighlights_cursor[of h "case cbArgs p of [] \<Rightarrow> None | a # as \<Rightarrow> Some a"
          "s\<lparr>pending := filter (\<lambda>q. handle q \<noteq> k) (pending s)\<rparr>"]
      by (simp add: fireTimer_def)
  qed
qed

lemma invoke_step:
  assumes "getTime (lastSync s) \<le> Some t" and "t \<le> now h"
  shows "getTime (lastSync (snd (invoke h i s))) \<le> Some (now h) \<and>
         getTime (lastSync s) \<le> getTime (lastSync (snd (invoke h i s)))"
proof -
  from assms have "getTime (lastSync s) \<le> Some (now h)"
    by (cases "getTime (lastSync s)") auto
  with invoke_cursor[of h i s] show ?thesis by auto
qed

lemma run_monotone:
  "getTime (lastSync s) \<le> Some t \<Longrightarrow> sorted (t # map (\<lambda>x. now (fst x)) steps) \<Longrightarrow>
   getTime (lastSync s) \<le> getTime (lastSync (run steps s)) \<and>
   getTime (lastSync (run steps s)) \<le> Some (last (t # map (\<lambda>x. now (fst x)) steps))"
proof (induction steps arbitrary: s t)
  case Nil
  then show ?case by simp
next
  case (Cons x steps)
  obtain h i where x: "x = (h, i)" by (cases x)
  from Cons.prems x have le: "t \<le> now h"
    and rest: "sorted (now h # map (\<lambda>x. now (fst x)) steps)" by auto
  from invoke_step[OF Cons.prems(1) le, of i]
  have st: "getTime (lastSync (snd (invoke h i s))) \<le> Some (now h)"
    and cl: "getTime (lastSync s) \<le> getTime (lastSync (snd (invoke h i s)))" by auto
  from Cons.IH[OF st rest] x cl show ?case
    by (auto intro: order_trans)
qed

lemma run_append: "run (xs @ ys) s = run ys (run xs s)"
  by (induction xs arbitrary: s) auto

text \<open>
  C4 (no cursor mutation on failure), amended. A cycle whose fetch reports a failure (auth
  or other) or throws leaves the stored cursor as it was, whatever its options. A
  successful cycle overwrites the cursor with the local clock reading, whatever is stored,
  so the cursor's time is non-decreasing only under two conditions on the clock: along a
  sequence of invocations whose clock readings are non-decreasing from \<open>t\<close>, started with
  a cursor whose time is at most \<open>t\<close>, the cursor's time never decreases. Times are
  compared as \<open>getTime\<close> gives them, an absent or unparsable cursor counting as earlier
  than every timestamp.
\<close>

theorem cursor_kept_on_failure_monotone_on_success:
  "(fetchResult h = Resolved (Failure err) \<or> fetchResult h = Rejected e \<longrightarrow>
      lastSync (snd (syncHighlights h a s)) = lastSync s) \<and>
   (getTime (lastSync s) \<le> Some t \<and> sorted (t # map (\<lambda>x. now (fst x)) (xs @ ys)) \<longrightarrow>
      getTime (lastSync (run xs s)) \<le> getTime (lastSync (run (xs @ ys) s)))"
proof (intro conjI impI)
  assume "fetchResult h = Resolved (Failure err) \<or> fetchResult h = Rejected e"
  then show "lastSync (snd (syncHighlights h a s)) = lastSync s"
    using syncHighlights_cursor[of h a s] by auto
next
  assume a: "getTime (lastSync s) \<le> Some t \<and>
    sorted (t # map (\<lambda>x. now (fst x)) (xs @ ys))"
  define u where "u = last (t # map (\<lambda>x. now (fst x)) xs)"
  from a have pre: "sorted (t # map (\<lambda>x. now (fst x)) xs)"
    by (auto simp: sorted_append)
  from a have post: "sorted (u # map (\<lambda>x. now (fst x)) ys)"
    unfolding u_def by (cases xs rule: rev_cases) (auto simp: sorted_append)
  from run_monotone[OF _ pre, of s] a have "getTime (lastSync (run xs s)) \<le> Some u"
    by (simp add: u_def)
  from run_monotone[OF this post]
  show "getTime (lastSync (run xs s)) \<le> getTime (lastSync (run (xs @ ys) s))"
    by (simp add: run_append)
qed

text \<open>An auth failure at cursor 5 keeps the cursor; over a success, an auth failure and a
  later success the cursor goes 5, 600000, 600000, 2400000.\<close>

theorem cursor_kept_on_failure_monotone_on_success_witness:
  "fetchResult hostAuth = Resolved (Failure ''auth'') \<and>
   lastSync (snd (syncHighlights hostAuth (Some optsLatest) (activation (Some (ISO 5))))) =
     Some (ISO 5) \<and>
   getTime (lastSync (activation (Some (ISO 5)) :: nat world)) \<le> Some 5 \<and>
   sorted (5 # map (\<lambda>x. now (fst x))
      ([(hostOk, SyncLatest)] @ [(hostAuth, SyncAll), (hostLater, SyncLatest)])) \<and>
   getTime (lastSync (run [(hostOk, SyncLatest)] (activation (Some (ISO 5))))) \<le>
     getTime (lastSync
       (run ([(hostOk, SyncLatest)] @ [(hostAuth, SyncAll), (hostLater, SyncLatest)])
          (activation (Some (ISO 5)))))"
  using cursor_kept_on_failure_monotone_on_success
    [of hostAuth "''auth''" TypeError "Some optsLatest" "activation (Some (ISO 5))" 5
        "[(hostOk, SyncLatest)]" "[(hostAuth, SyncAll), (hostLater, SyncLatest)]"]
  by (simp add: host_defs)

text \<open>
  Without the conditions on the clock the cursor can decrease across successful cycles.
  A stored cursor of 4200000 and a successful "sync latest" at clock reading 600000 leave
  the cursor at 600000; and two successful cycles, the first at clock reading 2400000 and
  the second at 600000, take the cursor from 2400000 down to 600000.
\<close>

theorem cursor_decreases_when_clock_behind:
  "fetchResult hostOk = Resolved (Success (Some [1])) \<and>
   lastSync (snd (syncHighlights hostOk (Some optsLatest) (activation (Some (ISO 4200000))))) =
     Some (ISO 600000) \<and>
   \<not> getTime (lastSync (activation (Some (ISO 4200000)) :: nat world)) \<le>
       getTime (lastSync
         (snd (syncHighlights hostOk (Some optsLatest) (activation (Some (ISO 4200000)))))) \<and>
   \<not> getTime (lastSync (run [(hostLater, SyncLatest)] (activation None))) \<le>
       getTime (lastSync (run ([(hostLater, SyncLatest)] @ [(hostOk, SyncLatest)])
         (activation None)))"
  by (simp add: cycle_defs host_defs)

subsection \<open>Toasts\<close>

lemma guarded_toasts:
  "filter is_Toast (trace (snd (guarded h opt k since s))) =
     filter is_Toast (trace s) @
       (case fetchResult h of
          Rejected e \<Rightarrow> [Toast msgFailed]
        | Resolved (Failure err) \<Rightarrow>
            (if err = ''auth'' then [Toast msgInvalidKey] else [Toast (msgFailedPrefix @ err)])
        | Resolved (Success books) \<Rightarrow>
            (case books of
               Some (b # bs) \<Rightarrow>
                 (if truthy (notify opt) then [Toast msgImporting] else []) @
                 (case importResult h of
                    Rejected e \<Rightarrow> [Toast msgFailed]
                  | Resolved u \<Rightarrow>
                      (if truthy (notify opt) then [Toast msgFinished] else []) @
                      (case setSyncedFault h of None \<Rightarrow> [] | Some e \<Rightarrow> [Toast msgFailed]))
             | _ \<Rightarrow>
                 (if truthy (notify opt) then [Toast msgNothing] else []) @
                 (case setSyncedFault h of None \<Rightarrow> [] | Some e \<Rightarrow> [Toast msgFailed])))"
proof (cases "fetchResult h")
  case (Rejected e)
  then show ?thesis
    by (cases "timeout s") (simp_all add: cycle_defs)
next
  case (Resolved r)
  show ?thesis
  proof (cases r)
    case (Failure err)
    with Resolved show ?thesis
      by (cases "timeout s") (simp_all add: cycle_defs)
  next
    case (Success books)
    show ?thesis
    proof (cases books)
      case None
      with Resolved Success show ?thesis
        by (cases "timeout s"; cases "setSyncedFault h") (simp_all add: cycle_defs)
    next
      case (Some bl)
      show ?thesis
      proof (cases bl)
        case Nil
        with Resolved Success Some show ?thesis
          by (cases "timeout s"; cases "setSyncedFault h") (simp_all add: cycle_defs)
      next
        case (Cons b bs)
        with Resolved Success Some show ?thesis
          by (cases "timeout s"; cases "setSyncedFault h"; cases "importResult h")
             (simp_all add: cycle_defs)
      qed
    qed
  qed
qed

text \<open>
  C9 (failure toasts bypass notify). The toasts a cycle adds, for any options: "no API
  key" when the key is missing or empty (even when the cycle is called with no options);
  and, past the credential gate, "invalid key" on an auth failure, the message with the
  error text on another failure, the generic failure message when the fetch, the import
  or the cursor write throws, none of them depending on \<^verbatim>\<open>notify\<close>; while "importing",
  "finished" and "nothing to import" are toasted exactly when \<^verbatim>\<open>notify\<close> is set.
\<close>

theorem failure_toasts_bypass_notify:
  "(falsyString key \<and> getSetting h = Resolved key \<longrightarrow>
      filter is_Toast (trace (snd (syncHighlights h a s))) =
        filter is_Toast (trace s) @ [Toast msgNoKey]) \<and>
   (getSetting h = Resolved (Some (c # cs)) \<and>
    (truthy (ignoreLastSync opt) \<or> getSyncedFault h = None) \<longrightarrow>
      filter is_Toast (trace (snd (syncHighlights h (Some opt) s))) =
        filter is_Toast (trace s) @
          (case fetchResult h of
             Rejected e \<Rightarrow> [Toast msgFailed]
           | Resolved (Failure err) \<Rightarrow>
               (if err = ''auth'' then [Toast msgInvalidKey]
                else [Toast (msgFailedPrefix @ err)])
           | Resolved (Success books) \<Rightarrow>
               (case books of
                  Some (b # bs) \<Rightarrow>
                    (if truthy (notify opt) then [Toast msgImporting] else []) @
                    (case importResult h of
                       Rejected e \<Rightarrow> [Toast msgFailed]
                     | Resolved u \<Rightarrow>
                         (if truthy (notify opt) then [Toast msgFinished] else []) @
                         (case setSyncedFault h of
                            None \<Rightarrow> []
                          | Some e \<Rightarrow> [Toast msgFailed]))
                | _ \<Rightarrow>
                    (if truthy (notify opt) then [Toast msgNothing] else []) @
                    (case setSyncedFault h of None \<Rightarrow> [] | Some e \<Rightarrow> [Toast msgFailed]))))"
proof (intro conjI impI)
  assume "falsyString key \<and> getSetting h = Resolved key"
  then show "filter is_Toast (trace (snd (syncHighlights h a s))) =
        filter is_Toast (trace s) @ [Toast msgNoKey]"
    by (simp add: syncHighlights_def toast_def console_log_def emit_def)
next
  assume "getSetting h = Resolved (Some (c # cs)) \<and>
    (truthy (ignoreLastSync opt) \<or> getSyncedFault h = None)"
  then show "filter is_Toast (trace (snd (syncHighlights h (Some opt) s))) =
        filter is_Toast (trace s) @
          (case fetchResult h of
             Rejected e \<Rightarrow> [Toast msgFailed]
           | Resolved (Failure err) \<Rightarrow>
               (if err = ''auth'' then [Toast msgInvalidKey]
                else [Toast (msgFailedPrefix @ err)])
           | Resolved (Success books) \<Rightarrow>
               (case books of
                  Some (b # bs) \<Rightarrow>
                    (if truthy (notify opt) then [Toast msgImporting] else []) @
                    (case importResult h of
                       Rejected e \<Rightarrow> [Toast msgFailed]
                     | Resolved u \<Rightarrow>
                         (if truthy (notify opt) then [Toast msgFinished] else []) @
                         (case setSyncedFault h of
                            None \<Rightarrow> []
                          | Some e \<Rightarrow> [Toast msgFailed]))
                | _ \<Rightarrow>
                    (if truthy (notify opt) then [Toast msgNothing] else []) @
                    (case setSyncedFault h of None \<Rightarrow> [] | Some e \<Rightarrow> [Toast msgFailed])))"
    using guarded_toasts[of h opt "c # cs"]
    by (auto simp: syncHighlights_def resolveSince_def getSynced_def emit_def Let_def)
qed

text \<open>The silent startup options: the missing key and the invalid key are toasted, the
  success messages of a non-empty import are not; with \<^verbatim>\<open>notify\<close> they are.\<close>

theorem failure_toasts_bypass_notify_witness:
  "filter is_Toast (trace (snd (syncHighlights hostNoKey (Some optsStartup) (activation None)))) =
     [Toast msgNoKey] \<and>
   filter is_Toast (trace (snd (syncHighlights hostAuth (Some optsStartup) (activation None)))) =
     [Toast msgInvalidKey] \<and>
   filter is_Toast (trace (snd (syncHighlights hostOk (Some optsStartup) (activation None)))) =
     [] \<and>
   filter is_Toast (trace (snd (syncHighlights hostOk (Some optsLatest) (activation None)))) =
     [Toast msgImporting, Toast msgFinished]"
  using failure_toasts_bypass_notify[of "Some []" hostNoKey "Some optsStartup" "activation None"
      "CHR ''t''" "''oken''" optsStartup]
    failure_toasts_bypass_notify[of "Some []" hostAuth "Some optsStartup" "activation None"
      "CHR ''t''" "''oken''" optsStartup]
    failure_toasts_bypass_notify[of "Some []" hostOk "Some optsStartup" "activation None"
      "CHR ''t''" "''oken''" optsStartup]
    failure_toasts_bypass_notify[of "Some []" hostOk "Some optsStartup" "activation None"
      "CHR ''t''" "''oken''" optsLatest]
  by (simp add: host_defs)

subsection \<open>Timers\<close>

lemma onActivate_pending:
  "pending (snd (onActivate h nowTest nowDelay s)) = pending s \<or>
   (\<exists>d. pending (snd (onActivate h nowTest nowDelay s)) =
     pending (clearTimeout (timeout s) s) @
       [\<lparr>handle = nextHandle s, delay = d, cbArgs = []\<rparr>])"
  using syncHighlights_pending[of h "Some optsStartup" "emit GetSynced s"]
  unfolding onActivate_def getSynced_def
  by (auto split: option.splits simp: emit_def clearTimeout_def setTimeout_def)

lemma clearTimeout_subset:
  "p \<in> set (pending (clearTimeout t s)) \<Longrightarrow> p \<in> set (pending s)"
  by (auto simp: clearTimeout_def emit_def split: option.splits)

text \<open>No statement assigns the variable \<^verbatim>\<open>timeout\<close>: it keeps its value through every
  invocation, so from activation on it stays \<^verbatim>\<open>undefined\<close>.\<close>

lemma invoke_timeout:
  "timeout (snd (invoke h i s)) = timeout s"
proof (cases i)
  case (TimerFires k)
  then show ?thesis
    by (cases "find (\<lambda>p. handle p = k) (pending s)")
       (simp_all add: fireTimer_def syncHighlights_timeout)
qed (simp_all add: syncHighlights_timeout)

lemma run_timeout:
  "timeout (run steps s) = timeout s"
proof (induction steps arbitrary: s)
  case Nil
  show ?case by simp
next
  case (Cons x steps)
  obtain h i where "x = (h, i)" by (cases x)
  with Cons.IH[of "snd (invoke h i s)"] show ?case
    by (simp add: invoke_timeout)
qed

text \<open>
  C10 (timer-fired invocations carry no options). The \<^verbatim>\<open>finally\<close> block schedules the
  cycle with no callback argument, and neither a cycle nor the startup code ever leaves a
  pending timer that carries one. When the host fires such a timer while a non-empty key
  is stored, the cycle reads the key, throws the \<^verbatim>\<open>TypeError\<close> of
  \<^verbatim>\<open>opts.ignoreLastSync\<close> and ends there: no fetch, no new timer.
\<close>

theorem timer_fired_cycle_faults:
  "pending (finallyBlock s) =
     pending (clearTimeout (timeout s) s) @
       [\<lparr>handle = nextHandle s, delay = Some interval, cbArgs = []\<rparr>] \<and>
   ((\<forall>p \<in> set (pending s). cbArgs p = []) \<longrightarrow>
      (\<forall>p \<in> set (pending (snd (syncHighlights h a s))). cbArgs p = []) \<and>
      (\<forall>p \<in> set (pending (snd (onActivate h nowTest nowDelay s))). cbArgs p = [])) \<and>
   ((\<forall>p \<in> set (pending s). cbArgs p = []) \<and> k \<in> handle ` set (pending s) \<and>
      getSetting h' = Resolved (Some (c # cs)) \<longrightarrow>
      fireTimer h' k s =
        (Threw TypeError,
         emit GetSetting (s\<lparr>pending := filter (\<lambda>q. handle q \<noteq> k) (pending s)\<rparr>)))"
proof (intro conjI impI)
  show "pending (finallyBlock s) =
     pending (clearTimeout (timeout s) s) @
       [\<lparr>handle = nextHandle s, delay = Some interval, cbArgs = []\<rparr>]"
    by (cases "timeout s") (simp_all add: finallyBlock_def setTimeout_def clearTimeout_def emit_def)
next
  assume a: "\<forall>p \<in> set (pending s). cbArgs p = []"
  show "\<forall>p \<in> set (pending (snd (syncHighlights h a s))). cbArgs p = []"
    using a syncHighlights_pending[of h a s] clearTimeout_subset[of _ "timeout s" s]
    by auto
  show "\<forall>p \<in> set (pending (snd (onActivate h nowTest nowDelay s))). cbArgs p = []"
    using a onActivate_pending[of h nowTest nowDelay s] clearTimeout_subset[of _ "timeout s" s]
    by auto
next
  assume b: "(\<forall>p \<in> set (pending s). cbArgs p = []) \<and> k \<in> handle ` set (pending s) \<and>
      getSetting h' = Resolved (Some (c # cs))"
  then obtain p where p: "find (\<lambda>p. handle p = k) (pending s) = Some p"
    by (cases "find (\<lambda>p. handle p = k) (pending s)") (auto simp: find_None_iff)
  then have "p \<in> set (pending s)"
    by (auto simp: find_Some_iff)
  with b have "cbArgs p = []" by blast
  with p b show "fireTimer h' k s =
        (Threw TypeError,
         emit GetSetting (s\<lparr>pending := filter (\<lambda>q. handle q \<noteq> k) (pending s)\<rparr>))"
    by (simp add: fireTimer_def syncHighlights_def)
qed

text \<open>The timer left by a manual sync, fired with the key stored: the cycle throws after
  reading the key, and no timer is pending afterwards.\<close>

theorem timer_fired_cycle_faults_witness:
  "fireTimer hostOk 0 (snd (syncHighlights hostOk (Some optsLatest) (activation None))) =
     (Threw TypeError,
      emit GetSetting ((snd (syncHighlights hostOk (Some optsLatest) (activation None)))
         \<lparr>pending := []\<rparr>)) \<and>
   map cbArgs (pending (snd (syncHighlights hostOk (Some optsLatest) (activation None)))) = [[]]"
  using timer_fired_cycle_faults[of "activation None" hostOk "Some optsLatest" 0 0 0 hostOk
      "CHR ''t''" "''oken''"]
    timer_fired_cycle_faults[of "snd (syncHighlights hostOk (Some optsLatest) (activation None))"
      hostOk "Some optsLatest" 0 0 0 hostOk "CHR ''t''" "''oken''"]
  by (simp add: host_defs cycle_defs)

subsection \<open>Where the re-arm is missed\<close>

text \<open>
  C1 (unconditional re-arm), evaluated. The credential gate and the \<^verbatim>\<open>since\<close>
  resolution stand before the \<^verbatim>\<open>try\<close>, so a cycle that leaves there never reaches the
  \<^verbatim>\<open>finally\<close> block: with an empty key the "sync latest" command returns with no timer
  pending, and a cycle called with no options while a key is stored throws with no timer
  pending. The auth-failure branch, which returns inside the \<^verbatim>\<open>try\<close>, does re-arm.
\<close>

theorem no_rearm_before_try:
  "syncHighlights hostNoKey (Some optsLatest) (activation None) =
     (Returned, \<lparr>lastSync = None, timeout = None, pending = [], nextHandle = 0,
        trace = [GetSetting, ConsoleLog msgNoKey, Toast msgNoKey]\<rparr>) \<and>
   syncHighlights hostOk None (activation None) =
     (Threw TypeError, \<lparr>lastSync = None, timeout = None, pending = [], nextHandle = 0,
        trace = [GetSetting]\<rparr>) \<and>
   pending (snd (syncHighlights hostAuth (Some optsLatest) (activation None))) =
     [\<lparr>handle = 0, delay = Some interval, cbArgs = []\<rparr>]"
  by (simp add: cycle_defs host_defs)

text \<open>
  C2 (single pending timer), evaluated. The handle returned by \<^verbatim>\<open>setTimeout\<close> is never
  stored in \<^verbatim>\<open>timeout\<close>, so \<^verbatim>\<open>clearTimeout(timeout)\<close> cancels nothing: after "sync
  latest" run twice from activation, two timers are pending and \<^verbatim>\<open>timeout\<close> is still
  \<^verbatim>\<open>undefined\<close>.
\<close>

theorem two_manual_syncs_two_timers:
  "pending (run [(hostOk, SyncLatest), (hostOk, SyncLatest)] (activation None)) =
     [\<lparr>handle = 0, delay = Some interval, cbArgs = []\<rparr>,
      \<lparr>handle = 1, delay = Some interval, cbArgs = []\<rparr>] \<and>
   timeout (run [(hostOk, SyncLatest), (hostOk, SyncLatest)] (activation None)) = None"
  by (simp add: cycle_defs host_defs)

text \<open>
  C3 (credential gate), evaluated. "Sync all" with an empty key and a stored cursor: the
  cycle reads the key, logs and toasts "no API key" and returns. It makes no fetch and no
  cursor read or write, and it schedules no timer.
\<close>

theorem no_key_cycle_schedules_nothing:
  "syncHighlights hostNoKey (Some optsAll)
      \<lparr>lastSync = Some (ISO 0), timeout = None, pending = [], nextHandle = 0, trace = []\<rparr> =
     (Returned, \<lparr>lastSync = Some (ISO 0), timeout = None, pending = [], nextHandle = 0,
        trace = [GetSetting, ConsoleLog msgNoKey, Toast msgNoKey]\<rparr>)"
  by (simp add: cycle_defs host_defs)

end
